theory Spec2Isabelle
  imports Complex_Main "HOL-Library.AList"
begin

section \<open>Motor information model: shallow embedding\<close>

text \<open>
  The program is a Python simulation of DC and AC motors under PI speed control, grouped
  into machines, production lines and a factory. Python's unbounded integers are
  \<^typ>\<open>int\<close>. Python's floats are idealised as \<^typ>\<open>real\<close>: every arithmetic operation
  is taken to be exact, so rounding error, infinities and NaN are outside the model; a float
  is always a finite one. Mutable objects are records that the operations return updated.
\<close>

subsection \<open>Python primitives used by the program\<close>

datatype py_error = ZeroDivisionError | OverflowError

text \<open>
  A number handed to a function is an \<open>int\<close> or a (finite) \<open>float\<close>. Arithmetic between an
  \<open>int\<close> and a \<open>float\<close> first converts the \<open>int\<close>; the conversion raises \<open>OverflowError\<close>
  ("int too large to convert to float") when the integer does not round to a finite double,
  that is from \<open>2 ^ 1024 - 2 ^ 970\<close> on in absolute value.
\<close>

datatype py_num = PyInt int | PyFloat real

definition to_float :: "py_num \<Rightarrow> py_error + real" where
  "to_float x =
     (case x of
        PyFloat r \<Rightarrow> Inr r
      | PyInt i \<Rightarrow> if \<bar>i\<bar> < 2 ^ 1024 - 2 ^ 970 then Inr (of_int i) else Inl OverflowError)"

text \<open>\<open>np.clip(x, lo, hi)\<close> is \<open>minimum(maximum(x, lo), hi)\<close>.\<close>

definition np_clip :: "real \<Rightarrow> real \<Rightarrow> real \<Rightarrow> real" where
  "np_clip x a_min a_max = min (max x a_min) a_max"

text \<open>
  The module-level random generator is an explicit state: the sequence of values that the
  coming calls of \<open>random.random()\<close> will return (each of them in \<open>[0, 1)\<close>).
  \<open>random.uniform(a, b)\<close> is \<open>a + (b - a) * random.random()\<close> in the standard library.
\<close>

type_synonym rng = "nat \<Rightarrow> real"

definition random_random :: "rng \<Rightarrow> real \<times> rng" where
  "random_random g = (g 0, \<lambda>k. g (Suc k))"

definition random_uniform :: "real \<Rightarrow> real \<Rightarrow> rng \<Rightarrow> real \<times> rng" where
  "random_uniform a b g = (case random_random g of (u, g') \<Rightarrow> (a + (b - a) * u, g'))"

text \<open>
  \<open>round(x, ndigits)\<close> on a float: the nearest multiple of \<open>10 ^ -ndigits\<close>, a tie going to
  the even multiple.
\<close>

definition round_half_even :: "real \<Rightarrow> int" where
  "round_half_even y =
     (let f = \<lfloor>y\<rfloor>; d = y - of_int f
      in if d < 1 / 2 then f else if 1 / 2 < d then f + 1 else if even f then f else f + 1)"

definition py_round :: "real \<Rightarrow> nat \<Rightarrow> real" where
  "py_round x ndigits = of_int (round_half_even (x * 10 ^ ndigits)) / 10 ^ ndigits"

subsection \<open>Reference signal generator\<close>

text \<open>
  \<open>get_speed_reference(cycle, motor_id, cycle_interval=50)\<close>. The builtin \<open>hash\<close> on
  strings is not part of the repository; it is the parameter \<open>hash\<close>. The floor division
  raises \<open>ZeroDivisionError\<close> when \<open>cycle_interval\<close> is 0. Python's \<open>//\<close> and \<open>%\<close> on
  integers are HOL's \<open>div\<close> and \<open>mod\<close> on \<^typ>\<open>int\<close> (both round towards minus infinity).
  The index is always in \<open>0..3\<close>, so \<open>levels[index]\<close> never raises.
\<close>

definition get_speed_reference ::
  "(string \<Rightarrow> int) \<Rightarrow> int \<Rightarrow> string \<Rightarrow> int \<Rightarrow> py_error + int" where
  "get_speed_reference hash cycle motor_id cycle_interval =
     (let base = (\<bar>hash motor_id\<bar> mod 200) + 1000;
          levels = [base, base + 100, base + 200, base + 300]
      in if cycle_interval = 0 then Inl ZeroDivisionError
         else (let index = (cycle div cycle_interval) mod 4 in Inr (levels ! nat index)))"

subsection \<open>Motors\<close>

record Motor =
  motor_id :: string
  voltage :: real
  current :: real
  speed :: real
  torque :: real
  efficiency :: real
  temperature :: real
  operating_hours :: int

definition Motor_init :: "string \<Rightarrow> Motor" where
  "Motor_init mid =
     \<lparr>motor_id = mid, voltage = 0, current = 0, speed = 0, torque = 0,
      efficiency = 92.0, temperature = 25.0, operating_hours = 0\<rparr>"

text \<open>The dictionary returned by \<open>monitor_status\<close>, one field per key.\<close>

record Status =
  Motor_ID :: string
  Voltage_V :: real
  Current_A :: real
  Speed_RPM :: real
  Torque_Nm :: real
  Efficiency_pct :: real
  Temperature_C :: real
  Operating_Hours :: int

definition monitor_status :: "'a Motor_scheme \<Rightarrow> Status" where
  "monitor_status self =
     \<lparr>Motor_ID = motor_id self,
      Voltage_V = voltage self,
      Current_A = py_round (current self) 5,
      Speed_RPM = py_round (speed self) 10,
      Torque_Nm = py_round (torque self) 10,
      Efficiency_pct = py_round (efficiency self) 2,
      Temperature_C = py_round (temperature self) 2,
      Operating_Hours = operating_hours self\<rparr>"

subsubsection \<open>DC motor\<close>

record DCMotor = Motor +
  controller_gain :: real
  integral_gain :: real
  integral_error :: real

definition DCMotor_init :: "string \<Rightarrow> DCMotor" where
  "DCMotor_init mid =
     Motor.extend (Motor_init mid)
       \<lparr>controller_gain = 0.5, integral_gain = 0.01, integral_error = 0.0\<rparr>"

text \<open>
  \<open>control\<close> returns the actuation signal and the motor as it leaves the call.
  \<open>target_speed\<close> is any number; the caller passes the integer reference. An integer
  target meets float arithmetic before any attribute is assigned: in
  \<open>target_speed - self.speed\<close> once the speed is a float, and in
  \<open>self.integral_error += error\<close> while the speed is still the integer 0 of the constructor
  (then \<open>error\<close> is the target itself). Either way a target too large for a float raises
  \<open>OverflowError\<close> and leaves the motor as it was.
\<close>

definition DCMotor_control :: "py_num \<Rightarrow> DCMotor \<Rightarrow> py_error + (real \<times> DCMotor)" where
  "DCMotor_control target_speed self =
     (case to_float target_speed of
        Inl e \<Rightarrow> Inl e
      | Inr target_speed \<Rightarrow>
         (let error = target_speed - speed self;
              self = self\<lparr>integral_error := integral_error self + error\<rparr>;
              control_signal =
                controller_gain self * error + integral_gain self * integral_error self;
              control_signal = np_clip control_signal 0 1;
              self = self\<lparr>voltage := control_signal * 480\<rparr>
          in Inr (control_signal, self)))"

definition DCMotor_update_motor :: "real \<Rightarrow> DCMotor \<Rightarrow> rng \<Rightarrow> DCMotor \<times> rng" where
  "DCMotor_update_motor control_signal self g =
     (let max_voltage = 480;
          applied_voltage = control_signal * max_voltage;
          gain = 3.125;
          time_constant = 10;
          self = self\<lparr>speed := speed self + (applied_voltage * gain - speed self) / time_constant\<rparr>;
          self = self\<lparr>current := control_signal * 10\<rparr>;
          self = self\<lparr>torque := current self * 0.5\<rparr>;
          (jitter, g) = random_uniform (- 0.05) 0.05 g;
          self = self\<lparr>temperature := temperature self + (control_signal * 0.1 + jitter)\<rparr>;
          (wear, g) = random_uniform 0 0.001 g;
          self = self\<lparr>efficiency := efficiency self - wear\<rparr>;
          self = self\<lparr>operating_hours := operating_hours self + 1\<rparr>
      in (self, g))"

text \<open>
  One control-then-update cycle of a DC motor (the two calls that \<open>update_machines\<close> makes
  on its DC motor), and the motor states seen before and after each cycle of a run. An
  exception ends the run: the trace stops at the last state reached.
\<close>

definition DCMotor_cycle :: "py_num \<Rightarrow> DCMotor \<Rightarrow> rng \<Rightarrow> py_error + (DCMotor \<times> rng)" where
  "DCMotor_cycle target_speed self g =
     (case DCMotor_control target_speed self of
        Inl e \<Rightarrow> Inl e
      | Inr (dc_control_signal, self) \<Rightarrow> Inr (DCMotor_update_motor dc_control_signal self g))"

fun DCMotor_trace :: "py_num list \<Rightarrow> DCMotor \<Rightarrow> rng \<Rightarrow> DCMotor list" where
  "DCMotor_trace [] self g = [self]"
| "DCMotor_trace (target_speed # targets) self g =
     self # (case DCMotor_cycle target_speed self g of
               Inl e \<Rightarrow> []
             | Inr (self', g') \<Rightarrow> DCMotor_trace targets self' g')"

subsubsection \<open>AC motor\<close>

record ACMotor = Motor +
  base_frequency :: real
  controller_gain :: real
  integral_gain :: real
  integral_error :: real
  frequency :: real

definition ACMotor_init :: "string \<Rightarrow> ACMotor" where
  "ACMotor_init mid =
     (let base_frequency = 50
      in Motor.extend (Motor_init mid)
           \<lparr>base_frequency = base_frequency, controller_gain = 0.02, integral_gain = 0.005,
            integral_error = 0.0, frequency = base_frequency\<rparr>)"

definition ACMotor_control :: "py_num \<Rightarrow> ACMotor \<Rightarrow> py_error + (real \<times> ACMotor)" where
  "ACMotor_control target_speed self =
     (case to_float target_speed of
        Inl e \<Rightarrow> Inl e
      | Inr target_speed \<Rightarrow>
         (let error = target_speed - speed self;
              self = self\<lparr>integral_error := integral_error self + error\<rparr>;
              new_frequency = base_frequency self + controller_gain self * error
                                + integral_gain self * integral_error self;
              new_frequency = np_clip new_frequency 40 60;
              self = self\<lparr>frequency := new_frequency\<rparr>;
              control_signal = new_frequency / 60
          in Inr (control_signal, self)))"

definition ACMotor_update_motor :: "real \<Rightarrow> ACMotor \<Rightarrow> rng \<Rightarrow> ACMotor \<times> rng" where
  "ACMotor_update_motor control_signal self g =
     (let gain_ac = 30;
          time_constant = 10;
          self = self\<lparr>speed := speed self + (frequency self * gain_ac - speed self) / time_constant\<rparr>;
          self = self\<lparr>current := (frequency self / 60) * 10\<rparr>;
          self = self\<lparr>torque := current self * 0.5\<rparr>;
          (jitter, g) = random_uniform (- 0.05) 0.05 g;
          self = self\<lparr>temperature := temperature self + ((frequency self / 60) * 0.1 + jitter)\<rparr>;
          (wear, g) = random_uniform 0 0.001 g;
          self = self\<lparr>efficiency := efficiency self - wear\<rparr>;
          self = self\<lparr>operating_hours := operating_hours self + 1\<rparr>
      in (self, g))"

definition ACMotor_cycle :: "py_num \<Rightarrow> ACMotor \<Rightarrow> rng \<Rightarrow> py_error + (ACMotor \<times> rng)" where
  "ACMotor_cycle target_speed self g =
     (case ACMotor_control target_speed self of
        Inl e \<Rightarrow> Inl e
      | Inr (ac_control_signal, self) \<Rightarrow> Inr (ACMotor_update_motor ac_control_signal self g))"

fun ACMotor_trace :: "py_num list \<Rightarrow> ACMotor \<Rightarrow> rng \<Rightarrow> ACMotor list" where
  "ACMotor_trace [] self g = [self]"
| "ACMotor_trace (target_speed # targets) self g =
     self # (case ACMotor_cycle target_speed self g of
               Inl e \<Rightarrow> []
             | Inr (self', g') \<Rightarrow> ACMotor_trace targets self' g')"

subsection \<open>String formatting\<close>

text \<open>The decimal rendering of an integer inside an f-string (\<open>str\<close> of an \<open>int\<close>).\<close>

definition digit_char :: "nat \<Rightarrow> char" where
  "digit_char d = ''0123456789'' ! d"

fun str_nat :: "nat \<Rightarrow> string" where
  "str_nat n = (if n < 10 then [digit_char n] else str_nat (n div 10) @ [digit_char (n mod 10)])"

declare str_nat.simps [simp del]

definition str_int :: "int \<Rightarrow> string" where
  "str_int i = (if i < 0 then CHR ''-'' # str_nat (nat (- i)) else str_nat (nat i))"

text \<open>\<open>range(start, stop)\<close> on integers; \<open>range(n)\<close> is \<open>py_range 0 n\<close>.\<close>

definition py_range :: "int \<Rightarrow> int \<Rightarrow> int list" where
  "py_range start stop = [start..stop - 1]"

subsection \<open>The log\<close>

text \<open>
  \<open>motor_logs\<close> is a dictionary from motor identity to a dictionary of seven lists. It is an
  association list in insertion order (a new key goes to the end, as in a Python dict);
  the inner dictionary, whose keys are fixed, is a record.
\<close>

record MotorLog =
  log_cycle :: "int list"
  log_speed :: "real list"
  log_temperature :: "real list"
  log_efficiency :: "real list"
  log_current :: "real list"
  log_torque :: "real list"
  log_reference :: "int list"

type_synonym motor_logs = "(string \<times> MotorLog) list"

definition new_log :: MotorLog where
  "new_log = \<lparr>log_cycle = [], log_speed = [], log_temperature = [], log_efficiency = [],
              log_current = [], log_torque = [], log_reference = []\<rparr>"

text \<open>
  The logging block of \<open>update_machines\<close>, which the source writes out once for the DC and
  once for the AC motor: the entry of the identity is created empty when the key is absent,
  then one value is appended to each of its seven lists. The subscripts
  \<open>motor_logs[id]\<close> come after the insertion, so they cannot raise \<open>KeyError\<close>.
\<close>

definition log_append :: "string \<Rightarrow> int \<Rightarrow> Status \<Rightarrow> int \<Rightarrow> motor_logs \<Rightarrow> motor_logs" where
  "log_append mid cycle status target_speed motor_logs =
     (let entry = (case map_of motor_logs mid of None \<Rightarrow> new_log | Some e \<Rightarrow> e);
          entry = entry\<lparr>log_cycle := log_cycle entry @ [cycle]\<rparr>;
          entry = entry\<lparr>log_speed := log_speed entry @ [Speed_RPM status]\<rparr>;
          entry = entry\<lparr>log_temperature := log_temperature entry @ [Temperature_C status]\<rparr>;
          entry = entry\<lparr>log_efficiency := log_efficiency entry @ [Efficiency_pct status]\<rparr>;
          entry = entry\<lparr>log_current := log_current entry @ [Current_A status]\<rparr>;
          entry = entry\<lparr>log_torque := log_torque entry @ [Torque_Nm status]\<rparr>;
          entry = entry\<lparr>log_reference := log_reference entry @ [target_speed]\<rparr>
      in AList.update mid entry motor_logs)"

subsection \<open>Machine, production line, factory\<close>

record Machine =
  machine_id :: string
  dc_motor :: DCMotor
  ac_motor :: ACMotor
  status :: string

definition Machine_init :: "string \<Rightarrow> Machine" where
  "Machine_init mid =
     \<lparr>machine_id = mid,
      dc_motor = DCMotor_init (mid @ ''_DC''),
      ac_motor = ACMotor_init (mid @ ''_AC''),
      status = ''Running''\<rparr>"

text \<open>
  \<open>update_machines\<close> asks for both references with the default interval 50, steps the DC
  motor and logs it, then steps the AC motor and logs it. The references it hands to the
  controllers are integers. It returns its message together with the machine, the log and
  the random generator as they are afterwards; an exception of a callee ends it.
\<close>

definition Machine_update_machines ::
  "(string \<Rightarrow> int) \<Rightarrow> int \<Rightarrow> Machine \<Rightarrow> motor_logs \<Rightarrow> rng
     \<Rightarrow> py_error + (string \<times> Machine \<times> motor_logs \<times> rng)" where
  "Machine_update_machines hash cycle self motor_logs g =
     (case get_speed_reference hash cycle (motor_id (dc_motor self)) 50 of
        Inl e \<Rightarrow> Inl e
      | Inr target_speed_dc \<Rightarrow>
     (case get_speed_reference hash cycle (motor_id (ac_motor self)) 50 of
        Inl e \<Rightarrow> Inl e
      | Inr target_speed_ac \<Rightarrow>
     (case DCMotor_control (PyInt target_speed_dc) (dc_motor self) of
        Inl e \<Rightarrow> Inl e
      | Inr (dc_control_signal, dc) \<Rightarrow>
       (let (dc, g) = DCMotor_update_motor dc_control_signal dc g;
            self = self\<lparr>dc_motor := dc\<rparr>;
            status_dc = monitor_status (dc_motor self);
            motor_logs = log_append (motor_id (dc_motor self)) cycle status_dc target_speed_dc
                           motor_logs
        in
     (case ACMotor_control (PyInt target_speed_ac) (ac_motor self) of
        Inl e \<Rightarrow> Inl e
      | Inr (ac_control_signal, ac) \<Rightarrow>
       (let (ac, g) = ACMotor_update_motor ac_control_signal ac g;
            self = self\<lparr>ac_motor := ac\<rparr>;
            status_ac = monitor_status (ac_motor self);
            motor_logs = log_append (motor_id (ac_motor self)) cycle status_ac target_speed_ac
                           motor_logs
        in Inr (''Machine '' @ machine_id self @ '' updated.'', self, motor_logs, g)))))))"

record ProductionLine =
  line_id :: string
  machines :: "Machine list"

definition ProductionLine_init :: "string \<Rightarrow> int \<Rightarrow> ProductionLine" where
  "ProductionLine_init lid num_machines =
     \<lparr>line_id = lid,
      machines = map (\<lambda>i. Machine_init (lid @ ''_M'' @ str_int i)) (py_range 0 num_machines)\<rparr>"

text \<open>The loop \<open>for machine in self.machines\<close>; the first exception ends it.\<close>

fun update_each_machine ::
  "(string \<Rightarrow> int) \<Rightarrow> int \<Rightarrow> Machine list \<Rightarrow> motor_logs \<Rightarrow> rng
     \<Rightarrow> py_error + (Machine list \<times> motor_logs \<times> rng)" where
  "update_each_machine hash cycle [] motor_logs g = Inr ([], motor_logs, g)"
| "update_each_machine hash cycle (machine # rest) motor_logs g =
     (case Machine_update_machines hash cycle machine motor_logs g of
        Inl e \<Rightarrow> Inl e
      | Inr (msg, machine', motor_logs', g') \<Rightarrow>
          (case update_each_machine hash cycle rest motor_logs' g' of
             Inl e \<Rightarrow> Inl e
           | Inr (rest', motor_logs'', g'') \<Rightarrow> Inr (machine' # rest', motor_logs'', g'')))"

definition ProductionLine_update_production_line ::
  "(string \<Rightarrow> int) \<Rightarrow> int \<Rightarrow> ProductionLine \<Rightarrow> motor_logs \<Rightarrow> rng
     \<Rightarrow> py_error + (ProductionLine \<times> motor_logs \<times> rng)" where
  "ProductionLine_update_production_line hash cycle self motor_logs g =
     (case update_each_machine hash cycle (machines self) motor_logs g of
        Inl e \<Rightarrow> Inl e
      | Inr (ms, motor_logs', g') \<Rightarrow> Inr (self\<lparr>machines := ms\<rparr>, motor_logs', g'))"

record Factory =
  factory_name :: string
  production_lines :: "ProductionLine list"

definition Factory_init :: "string \<Rightarrow> int \<Rightarrow> int \<Rightarrow> Factory" where
  "Factory_init name num_lines machines_per_line =
     \<lparr>factory_name = name,
      production_lines =
        map (\<lambda>i. ProductionLine_init (''Line_'' @ str_int (i + 1)) machines_per_line)
          (py_range 0 num_lines)\<rparr>"

subsection \<open>The simulation run\<close>

text \<open>
  The body of the script: build the factory, start from the empty log, and in every cycle
  of \<open>range(1, total_cycles + 1)\<close> update every production line. The script fixes 2 lines,
  2 machines per line and 101 cycles; here they are parameters. Drawing the figures and the
  table and sleeping between cycles only read the log and are left out.
\<close>

fun update_each_line ::
  "(string \<Rightarrow> int) \<Rightarrow> int \<Rightarrow> ProductionLine list \<Rightarrow> motor_logs \<Rightarrow> rng
     \<Rightarrow> py_error + (ProductionLine list \<times> motor_logs \<times> rng)" where
  "update_each_line hash cycle [] motor_logs g = Inr ([], motor_logs, g)"
| "update_each_line hash cycle (line # rest) motor_logs g =
     (case ProductionLine_update_production_line hash cycle line motor_logs g of
        Inl e \<Rightarrow> Inl e
      | Inr (line', motor_logs', g') \<Rightarrow>
          (case update_each_line hash cycle rest motor_logs' g' of
             Inl e \<Rightarrow> Inl e
           | Inr (rest', motor_logs'', g'') \<Rightarrow> Inr (line' # rest', motor_logs'', g'')))"

fun run_cycles ::
  "(string \<Rightarrow> int) \<Rightarrow> int list \<Rightarrow> Factory \<Rightarrow> motor_logs \<Rightarrow> rng
     \<Rightarrow> py_error + (Factory \<times> motor_logs \<times> rng)" where
  "run_cycles hash [] factory motor_logs g = Inr (factory, motor_logs, g)"
| "run_cycles hash (cycle # cycles) factory motor_logs g =
     (case update_each_line hash cycle (production_lines factory) motor_logs g of
        Inl e \<Rightarrow> Inl e
      | Inr (lines, motor_logs', g') \<Rightarrow>
          run_cycles hash cycles (factory\<lparr>production_lines := lines\<rparr>) motor_logs' g')"

definition simulation ::
  "(string \<Rightarrow> int) \<Rightarrow> int \<Rightarrow> int \<Rightarrow> int \<Rightarrow> rng \<Rightarrow> py_error + (Factory \<times> motor_logs \<times> rng)" where
  "simulation hash num_lines machines_per_line total_cycles g =
     (let factory = Factory_init ''Smart Information Model Factory'' num_lines machines_per_line;
          motor_logs = []
      in run_cycles hash (py_range 1 (total_cycles + 1)) factory motor_logs g)"

subsection \<open>Notions for stating the log properties\<close>

text \<open>
  The identities of the motors of a machine, a line and a factory, in the order in which a
  cycle visits them.
\<close>

definition machine_ids :: "Machine \<Rightarrow> string list" where
  "machine_ids m = [motor_id (dc_motor m), motor_id (ac_motor m)]"

definition line_ids :: "ProductionLine \<Rightarrow> string list" where
  "line_ids line = concat (map machine_ids (machines line))"

definition factory_ids :: "Factory \<Rightarrow> string list" where
  "factory_ids factory = concat (map line_ids (production_lines factory))"

text \<open>
  The entry that the logging block works on: the stored one, or the empty one when the key
  is absent; and the lengths of its seven lists.
\<close>

definition entry_of :: "motor_logs \<Rightarrow> string \<Rightarrow> MotorLog" where
  "entry_of motor_logs mid = (case map_of motor_logs mid of None \<Rightarrow> new_log | Some e \<Rightarrow> e)"

definition entry_lengths :: "MotorLog \<Rightarrow> nat list" where
  "entry_lengths e =
     [length (log_cycle e), length (log_speed e), length (log_temperature e),
      length (log_efficiency e), length (log_current e), length (log_torque e),
      length (log_reference e)]"

text \<open>
  \<open>appended mids motor_logs motor_logs'\<close>: the second log is the first after one logging
  block for each identity of \<open>mids\<close>, in that order.
\<close>

inductive appended :: "string list \<Rightarrow> motor_logs \<Rightarrow> motor_logs \<Rightarrow> bool" where
  appended_Nil: "appended [] motor_logs motor_logs"
| appended_Cons:
    "appended mids (log_append mid cycle st target_speed motor_logs) motor_logs'
       \<Longrightarrow> appended (mid # mids) motor_logs motor_logs'"

text \<open>
  The identity that the constructors give a motor: line \<open>i\<close> of \<open>range(num_lines)\<close> is
  named \<open>Line_{i+1}\<close>, its machine \<open>j\<close> is \<open>{line_id}_M{j}\<close>, and the motors add \<open>_DC\<close> and
  \<open>_AC\<close>; and all the identities of a factory in construction order.
\<close>

definition motor_name :: "int \<Rightarrow> int \<Rightarrow> string \<Rightarrow> string" where
  "motor_name i j tag = (''Line_'' @ str_int (i + 1)) @ ''_M'' @ str_int j @ tag"

definition motor_names :: "int \<Rightarrow> int \<Rightarrow> string list" where
  "motor_names L M =
     concat (map (\<lambda>i. concat (map (\<lambda>j. [motor_name i j ''_DC'', motor_name i j ''_AC''])
                                 (py_range 0 M))) (py_range 0 L))"

section \<open>Properties\<close>

subsection \<open>Reference signal generator\<close>

lemma index_cases: "(0::int) \<le> i \<Longrightarrow> i < 4 \<Longrightarrow> i = 0 \<or> i = 1 \<or> i = 2 \<or> i = 3"
  by arith

lemma levels_nth:
  fixes b i :: int
  assumes "0 \<le> i" "i < 4"
  shows "[b, b + 100, b + 200, b + 300] ! nat i = b + 100 * i"
  using index_cases [OF assms] by auto

lemma get_speed_reference_value:
  assumes "interval \<noteq> 0"
  shows "get_speed_reference hash cycle mid interval =
           Inr ((\<bar>hash mid\<bar> mod 200 + 1000) + 100 * ((cycle div interval) mod 4))"
proof -
  have "0 \<le> (cycle div interval) mod 4" "(cycle div interval) mod 4 < 4" by simp_all
  then show ?thesis
    using assms by (simp add: get_speed_reference_def Let_def levels_nth)
qed

text \<open>
  Claim C1. For every motor identity, every cycle \<open>\<ge> 0\<close> and every positive interval the
  reference generator returns \<open>base + 100 * ((cycle div interval) mod 4)\<close>, where
  \<open>base = (stable_hash id mod 200) + 1000\<close> lies in \<open>[1000, 1200)\<close>; the stable hash of the
  source is \<open>abs(hash(id))\<close>. The result is a function of the hash, the cycle, the identity
  and the interval alone (no state is read or written), so equal arguments give equal
  results.
\<close>

theorem reference_levels:
  assumes "0 \<le> cycle" and "0 < interval"
  shows "get_speed_reference hash cycle mid interval =
           Inr ((\<bar>hash mid\<bar> mod 200 + 1000) + 100 * ((cycle div interval) mod 4))
         \<and> 1000 \<le> \<bar>hash mid\<bar> mod 200 + 1000 \<and> \<bar>hash mid\<bar> mod 200 + 1000 < 1200"
  using assms by (simp add: get_speed_reference_value)

theorem reference_levels_witness:
  "(0::int) \<le> 101 \<and> (0::int) < 50
   \<and> get_speed_reference (\<lambda>s. - 7) 101 ''Line_1_M0_DC'' 50 = Inr 1207"
  using reference_levels [of 101 50 "\<lambda>s. - 7" "''Line_1_M0_DC''"] by simp

text \<open>
  Claim C9. For every motor identity and every positive interval, the call with cycle 0
  does not raise and selects level 0: it returns the base value of the motor.
\<close>

theorem reference_cycle_zero:
  assumes "0 < interval"
  shows "get_speed_reference hash 0 mid interval = Inr (\<bar>hash mid\<bar> mod 200 + 1000)"
  using assms by (simp add: get_speed_reference_value)

theorem reference_cycle_zero_witness:
  "(0::int) < 50 \<and> get_speed_reference (\<lambda>s. 1234) 0 ''Line_1_M0_AC'' 50 = Inr 1034"
  using reference_cycle_zero [of 50 "\<lambda>s. 1234" "''Line_1_M0_AC''"] by simp

subsection \<open>Controllers and plants\<close>

lemma dc_update_fields:
  "DCMotor_update_motor s m g =
     (m\<lparr>speed := speed m + (s * 480 * 3.125 - speed m) / 10,
        current := s * 10,
        torque := s * 10 * 0.5,
        temperature := temperature m + (s * 0.1 + (- 0.05 + (0.05 - (- 0.05)) * g 0)),
        efficiency := efficiency m - (0 + (0.001 - 0) * g 1),
        operating_hours := operating_hours m + 1\<rparr>, \<lambda>k. g (Suc (Suc k)))"
  by (simp add: DCMotor_update_motor_def random_uniform_def random_random_def Let_def)

lemma ac_update_fields:
  "ACMotor_update_motor s m g =
     (m\<lparr>speed := speed m + (frequency m * 30 - speed m) / 10,
        current := (frequency m / 60) * 10,
        torque := (frequency m / 60) * 10 * 0.5,
        temperature := temperature m + ((frequency m / 60) * 0.1 + (- 0.05 + (0.05 - (- 0.05)) * g 0)),
        efficiency := efficiency m - (0 + (0.001 - 0) * g 1),
        operating_hours := operating_hours m + 1\<rparr>, \<lambda>k. g (Suc (Suc k)))"
  by (simp add: ACMotor_update_motor_def random_uniform_def random_random_def Let_def)

lemma to_float_PyFloat: "to_float (PyFloat r) = Inr r"
  by (simp add: to_float_def)

lemma to_float_small: "\<bar>i\<bar> < 1500 \<Longrightarrow> to_float (PyInt i) = Inr (of_int i)"
proof -
  assume "\<bar>i\<bar> < 1500"
  moreover have "(1500::int) \<le> 2 ^ 1024 - 2 ^ 970" by simp
  ultimately have "\<bar>i\<bar> < 2 ^ 1024 - 2 ^ 970" by linarith
  then show ?thesis by (simp add: to_float_def)
qed

lemma to_float_error: "to_float x = Inl e \<Longrightarrow> e = OverflowError"
  by (auto simp: to_float_def split: py_num.splits if_splits)

lemma dc_control_raises: "to_float target = Inl e \<Longrightarrow> DCMotor_control target m = Inl e"
  by (simp add: DCMotor_control_def)

lemma ac_control_raises: "to_float target = Inl e \<Longrightarrow> ACMotor_control target m = Inl e"
  by (simp add: ACMotor_control_def)

lemma dc_control_fields:
  "to_float target = Inr t \<Longrightarrow>
   DCMotor_control target m =
     Inr (np_clip (DCMotor.controller_gain m * (t - speed m)
               + DCMotor.integral_gain m * (DCMotor.integral_error m + (t - speed m))) 0 1,
      m\<lparr>DCMotor.integral_error := DCMotor.integral_error m + (t - speed m),
        voltage := np_clip (DCMotor.controller_gain m * (t - speed m)
               + DCMotor.integral_gain m * (DCMotor.integral_error m + (t - speed m))) 0 1 * 480\<rparr>)"
  by (simp add: DCMotor_control_def Let_def)

lemma ac_control_fields:
  "to_float target = Inr t \<Longrightarrow>
   ACMotor_control target m =
     Inr (np_clip (base_frequency m + controller_gain m * (t - speed m)
               + integral_gain m * (integral_error m + (t - speed m))) 40 60 / 60,
      m\<lparr>integral_error := integral_error m + (t - speed m),
        frequency := np_clip (base_frequency m + controller_gain m * (t - speed m)
               + integral_gain m * (integral_error m + (t - speed m))) 40 60\<rparr>)"
  by (simp add: ACMotor_control_def Let_def)

lemma np_clip_bounds: "lo \<le> hi \<Longrightarrow> lo \<le> np_clip x lo hi \<and> np_clip x lo hi \<le> hi"
  by (simp add: np_clip_def)

lemma control_clamped_dc:
  "DCMotor_control target dc = Inr (signal, dc') \<Longrightarrow> 0 \<le> signal \<and> signal \<le> 1"
proof (cases "to_float target")
  case (Inl e)
  assume "DCMotor_control target dc = Inr (signal, dc')"
  then show ?thesis using dc_control_raises [OF Inl, of dc] by simp
next
  case (Inr t)
  assume "DCMotor_control target dc = Inr (signal, dc')"
  then show ?thesis using dc_control_fields [OF Inr, of dc] np_clip_bounds [of 0 1] by auto
qed

lemma control_clamped_ac:
  assumes "ACMotor_control target ac = Inr (signal, ac')"
  shows "40 \<le> frequency ac' \<and> frequency ac' \<le> 60 \<and> signal = frequency ac' / 60"
proof (cases "to_float target")
  case (Inl e)
  then show ?thesis using assms ac_control_raises [OF Inl, of ac] by simp
next
  case (Inr t)
  define f where "f = np_clip (base_frequency ac + controller_gain ac * (t - speed ac)
      + integral_gain ac * (integral_error ac + (t - speed ac))) 40 60"
  have "(40::real) \<le> 60" by simp
  then have "40 \<le> f \<and> f \<le> 60" unfolding f_def by (rule np_clip_bounds)
  moreover have "ACMotor_control target ac =
      Inr (f / 60, ac\<lparr>integral_error := integral_error ac + (t - speed ac), frequency := f\<rparr>)"
    unfolding f_def by (rule ac_control_fields [OF Inr])
  then have "signal = f / 60" "frequency ac' = f" using assms by auto
  ultimately show ?thesis by simp
qed

text \<open>
  Claim C2. One DC plant update with actuation signal \<open>s\<close> gives
  \<open>speed' = speed + (s * 480 * 3.125 - speed) / 10\<close>, \<open>current' = s * 10\<close>,
  \<open>torque' = current' * 0.5\<close> and \<open>operating_hours' = operating_hours + 1\<close>; temperature
  rises by \<open>s * 0.1\<close> plus the first uniform draw and efficiency falls by the second. One AC
  plant update is the same with \<open>speed' = speed + (frequency * 30 - speed) / 10\<close> and
  \<open>current' = (frequency / 60) * 10\<close>, where \<open>frequency\<close> is the one the controller stored
  (60 times the signal it returned). It holds for every signal, in particular for those the
  controller produces: whenever the AC controller returns (it raises only when the
  conversion of the target does), the update that follows is driven by the frequency it
  stored.
\<close>

theorem plant_update:
  "(case DCMotor_update_motor s dc g of (dc', g') \<Rightarrow>
      speed dc' = speed dc + (s * 480 * 3.125 - speed dc) / 10
    \<and> current dc' = s * 10
    \<and> torque dc' = current dc' * 0.5
    \<and> operating_hours dc' = operating_hours dc + 1
    \<and> temperature dc' = temperature dc + s * 0.1 + fst (random_uniform (- 0.05) 0.05 g)
    \<and> efficiency dc' =
        efficiency dc - fst (random_uniform 0 0.001 (snd (random_uniform (- 0.05) 0.05 g))))
   \<and> (case ACMotor_update_motor s ac g of (ac', g') \<Rightarrow>
      speed ac' = speed ac + (frequency ac * 30 - speed ac) / 10
    \<and> current ac' = (frequency ac / 60) * 10
    \<and> torque ac' = current ac' * 0.5
    \<and> operating_hours ac' = operating_hours ac + 1
    \<and> temperature ac' =
        temperature ac + (frequency ac / 60) * 0.1 + fst (random_uniform (- 0.05) 0.05 g)
    \<and> efficiency ac' =
        efficiency ac - fst (random_uniform 0 0.001 (snd (random_uniform (- 0.05) 0.05 g))))
   \<and> (case ACMotor_control target ac of
        Inl e \<Rightarrow> to_float target = Inl e
      | Inr (signal, ac1) \<Rightarrow>
          frequency ac1 = signal * 60 \<and> speed ac1 = speed ac
        \<and> speed (fst (ACMotor_update_motor signal ac1 g)) =
            speed ac + (signal * 60 * 30 - speed ac) / 10)"
proof -
  have "case ACMotor_control target ac of
          Inl e \<Rightarrow> to_float target = Inl e
        | Inr (signal, ac1) \<Rightarrow>
            frequency ac1 = signal * 60 \<and> speed ac1 = speed ac
          \<and> speed (fst (ACMotor_update_motor signal ac1 g)) =
              speed ac + (signal * 60 * 30 - speed ac) / 10"
  proof (cases "to_float target")
    case (Inl e)
    then show ?thesis by (simp add: ac_control_raises)
  next
    case (Inr t)
    then show ?thesis by (simp add: ac_control_fields ac_update_fields)
  qed
  then show ?thesis
    by (simp add: dc_update_fields ac_update_fields random_uniform_def random_random_def)
qed

text \<open>
  Claim C3, as stated: for every controller state and every target speed the controllers
  return a signal within the clamp range and never raise. It fails for the integer target
  \<open>10 ^ 400\<close> on new motors: the integer is too large to convert to a float and both
  controllers raise \<open>OverflowError\<close>.
\<close>

theorem control_clamped_counterexample:
  "DCMotor_control (PyInt (10 ^ 400)) (DCMotor_init ''Line_1_M0_DC'') = Inl OverflowError
   \<and> ACMotor_control (PyInt (10 ^ 400)) (ACMotor_init ''Line_1_M0_AC'') = Inl OverflowError"
proof -
  have big: "\<not> \<bar>10 ^ 400 :: int\<bar> < 2 ^ 1024 - 2 ^ 970" by simp
  have "to_float (PyInt (10 ^ 400)) =
          (if \<bar>10 ^ 400 :: int\<bar> < 2 ^ 1024 - 2 ^ 970 then Inr (of_int (10 ^ 400))
           else Inl OverflowError)"
    by (simp only: to_float_def py_num.case)
  then have raises: "to_float (PyInt (10 ^ 400)) = Inl OverflowError"
    by (simp only: big if_False)
  show ?thesis
  proof (rule conjI)
    show "DCMotor_control (PyInt (10 ^ 400)) (DCMotor_init ''Line_1_M0_DC'') = Inl OverflowError"
      using raises by (rule dc_control_raises)
    show "ACMotor_control (PyInt (10 ^ 400)) (ACMotor_init ''Line_1_M0_AC'') = Inl OverflowError"
      using raises by (rule ac_control_raises)
  qed
qed

text \<open>
  Claim C3, amended. For every controller state of finite numbers and every target speed
  that is a finite float or an integer that converts to a float, neither controller raises,
  the signal
  returned by the DC controller lies in \<open>[0, 1]\<close>, the frequency stored by the AC controller
  lies in \<open>[40, 60]\<close>, and the signal returned by the AC controller is that frequency
  divided by 60.
\<close>

theorem control_clamped:
  assumes "to_float target = Inr t"
  shows "(\<exists>signal dc'. DCMotor_control target dc = Inr (signal, dc')
            \<and> 0 \<le> signal \<and> signal \<le> 1)
       \<and> (\<exists>signal ac'. ACMotor_control target ac = Inr (signal, ac')
            \<and> 40 \<le> frequency ac' \<and> frequency ac' \<le> 60 \<and> signal = frequency ac' / 60)"
proof -
  obtain s dc' where dc: "DCMotor_control target dc = Inr (s, dc')"
    using dc_control_fields [OF assms, of dc] by blast
  obtain f ac' where ac: "ACMotor_control target ac = Inr (f, ac')"
    using ac_control_fields [OF assms, of ac] by blast
  have "0 \<le> s \<and> s \<le> 1" using dc by (rule control_clamped_dc)
  moreover have "40 \<le> frequency ac' \<and> frequency ac' \<le> 60 \<and> f = frequency ac' / 60"
    using ac by (rule control_clamped_ac)
  ultimately show ?thesis using dc ac by blast
qed

theorem control_clamped_witness:
  "to_float (PyInt 1000) = Inr 1000
   \<and> (\<exists>signal dc'. DCMotor_control (PyInt 1000) (DCMotor_init ''Line_1_M0_DC'') = Inr (signal, dc')
         \<and> 0 \<le> signal \<and> signal \<le> 1)
   \<and> (\<exists>signal ac'. ACMotor_control (PyInt 1000) (ACMotor_init ''Line_1_M0_AC'') = Inr (signal, ac')
         \<and> 40 \<le> frequency ac' \<and> frequency ac' \<le> 60 \<and> signal = frequency ac' / 60)"
proof -
  have c: "to_float (PyInt 1000) = Inr 1000" using to_float_small [of 1000] by simp
  show ?thesis
    using c control_clamped [OF c, of "DCMotor_init ''Line_1_M0_DC''" "ACMotor_init ''Line_1_M0_AC''"]
    by simp
qed

text \<open>
  Claim C7, as stated: \<open>control\<close> changes the integral accumulator and nothing else. It
  fails on a new motor with target 1000: the DC controller also moves \<open>voltage\<close> from 0 to
  480, and the AC controller also moves \<open>frequency\<close> from 50 to 60.
\<close>

theorem control_frame_counterexample:
  "voltage (DCMotor_init ''Line_1_M0_DC'') = 0
   \<and> DCMotor_control (PyInt 1000) (DCMotor_init ''Line_1_M0_DC'') =
       Inr (1, (DCMotor_init ''Line_1_M0_DC'')
                 \<lparr>DCMotor.integral_error := 1000, voltage := 480\<rparr>)
   \<and> frequency (ACMotor_init ''Line_1_M0_AC'') = 50
   \<and> ACMotor_control (PyInt 1000) (ACMotor_init ''Line_1_M0_AC'') =
       Inr (1, (ACMotor_init ''Line_1_M0_AC'')\<lparr>integral_error := 1000, frequency := 60\<rparr>)"
proof -
  have c: "to_float (PyInt 1000) = Inr 1000" using to_float_small [of 1000] by simp
  show ?thesis
    by (simp add: dc_control_fields [OF c] ac_control_fields [OF c] DCMotor_init_def
        ACMotor_init_def Motor_init_def Motor.defs np_clip_def)
qed

text \<open>
  Claim C7, amended. The DC controller changes exactly the integral accumulator (the error
  is added to it) and \<open>voltage\<close> (set to 480 times the returned signal); the AC controller
  changes exactly the integral accumulator and \<open>frequency\<close> (set to the clamped frequency,
  60 times the returned signal). Every other component of the motor is as before. (A call
  that raises does so in the conversion of the target, before any assignment.)
\<close>

theorem control_frame:
  "(case DCMotor_control target dc of
      Inl e \<Rightarrow> to_float target = Inl e
    | Inr (signal, dc') \<Rightarrow>
        (\<exists>t. to_float target = Inr t
           \<and> dc' = dc\<lparr>DCMotor.integral_error := DCMotor.integral_error dc + (t - speed dc),
                      voltage := signal * 480\<rparr>))
   \<and> (case ACMotor_control target ac of
      Inl e \<Rightarrow> to_float target = Inl e
    | Inr (signal, ac') \<Rightarrow>
        (\<exists>t. to_float target = Inr t
           \<and> ac' = ac\<lparr>integral_error := integral_error ac + (t - speed ac),
                      frequency := signal * 60\<rparr>))"
proof (cases "to_float target")
  case (Inl e)
  then show ?thesis by (simp add: dc_control_raises ac_control_raises)
next
  case (Inr t)
  then show ?thesis by (simp add: dc_control_fields ac_control_fields)
qed

subsection \<open>Runs of a single motor\<close>

lemma dc_cycle_result:
  assumes "DCMotor_cycle target m g = Inr (m', g')"
  shows "efficiency m' = efficiency m - 0.001 * g 1"
    and "g' = (\<lambda>k. g (Suc (Suc k)))"
    and "\<exists>signal. 0 \<le> signal \<and> signal \<le> 1
           \<and> speed m' = speed m + (signal * 480 * 3.125 - speed m) / 10"
proof -
  obtain t where t: "to_float target = Inr t"
    using assms by (cases "to_float target") (simp_all add: DCMotor_cycle_def dc_control_raises)
  define signal where "signal = np_clip (DCMotor.controller_gain m * (t - speed m)
      + DCMotor.integral_gain m * (DCMotor.integral_error m + (t - speed m))) 0 1"
  have m': "m' = fst (DCMotor_update_motor signal
      (m\<lparr>DCMotor.integral_error := DCMotor.integral_error m + (t - speed m),
         voltage := signal * 480\<rparr>) g)"
    and g': "g' = snd (DCMotor_update_motor signal
      (m\<lparr>DCMotor.integral_error := DCMotor.integral_error m + (t - speed m),
         voltage := signal * 480\<rparr>) g)"
    using assms by (simp_all add: DCMotor_cycle_def dc_control_fields [OF t] signal_def)
  show "efficiency m' = efficiency m - 0.001 * g 1" by (simp add: m' dc_update_fields)
  show "g' = (\<lambda>k. g (Suc (Suc k)))" by (simp add: g' dc_update_fields)
  have "0 \<le> signal \<and> signal \<le> 1" using np_clip_bounds [of 0 1] by (simp add: signal_def)
  moreover have "speed m' = speed m + (signal * 480 * 3.125 - speed m) / 10"
    by (simp add: m' dc_update_fields)
  ultimately show "\<exists>signal. 0 \<le> signal \<and> signal \<le> 1
           \<and> speed m' = speed m + (signal * 480 * 3.125 - speed m) / 10" by blast
qed

lemma ac_cycle_result:
  assumes "ACMotor_cycle target m g = Inr (m', g')"
  shows "efficiency m' = efficiency m - 0.001 * g 1"
    and "g' = (\<lambda>k. g (Suc (Suc k)))"
proof -
  obtain t where t: "to_float target = Inr t"
    using assms by (cases "to_float target") (simp_all add: ACMotor_cycle_def ac_control_raises)
  define f where "f = np_clip (base_frequency m + controller_gain m * (t - speed m)
      + integral_gain m * (integral_error m + (t - speed m))) 40 60"
  have m': "m' = fst (ACMotor_update_motor (f / 60)
      (m\<lparr>integral_error := integral_error m + (t - speed m), frequency := f\<rparr>) g)"
    and g': "g' = snd (ACMotor_update_motor (f / 60)
      (m\<lparr>integral_error := integral_error m + (t - speed m), frequency := f\<rparr>) g)"
    using assms by (simp_all add: ACMotor_cycle_def ac_control_fields [OF t] f_def)
  show "efficiency m' = efficiency m - 0.001 * g 1" by (simp add: m' ac_update_fields)
  show "g' = (\<lambda>k. g (Suc (Suc k)))" by (simp add: g' ac_update_fields)
qed

lemma dc_cycle_returns:
  "\<not> isl (to_float target) \<Longrightarrow> \<exists>m' g'. DCMotor_cycle target m g = Inr (m', g')"
  by (cases "to_float target") (auto simp: DCMotor_cycle_def dc_control_fields)

lemma ac_cycle_returns:
  "\<not> isl (to_float target) \<Longrightarrow> \<exists>m' g'. ACMotor_cycle target m g = Inr (m', g')"
  by (cases "to_float target") (auto simp: ACMotor_cycle_def ac_control_fields)

lemma dc_trace_hd: "DCMotor_trace ts m g ! 0 = m"
  by (cases ts) simp_all

lemma ac_trace_hd: "ACMotor_trace ts m g ! 0 = m"
  by (cases ts) simp_all

lemma dc_trace_length:
  "list_all (\<lambda>x. \<not> isl (to_float x)) ts \<Longrightarrow> length (DCMotor_trace ts m g) = Suc (length ts)"
proof (induction ts arbitrary: m g)
  case Nil
  then show ?case by simp
next
  case (Cons t ts)
  then obtain m' g' where "DCMotor_cycle t m g = Inr (m', g')"
    using dc_cycle_returns [of t m g] by auto
  then show ?case using Cons by simp
qed

lemma ac_trace_length:
  "list_all (\<lambda>x. \<not> isl (to_float x)) ts \<Longrightarrow> length (ACMotor_trace ts m g) = Suc (length ts)"
proof (induction ts arbitrary: m g)
  case Nil
  then show ?case by simp
next
  case (Cons t ts)
  then obtain m' g' where "ACMotor_cycle t m g = Inr (m', g')"
    using ac_cycle_returns [of t m g] by auto
  then show ?case using Cons by simp
qed

lemma dc_trace_efficiency:
  "\<forall>k. 0 \<le> g k \<Longrightarrow> Suc i < length (DCMotor_trace ts m g) \<Longrightarrow>
     efficiency (DCMotor_trace ts m g ! Suc i) \<le> efficiency (DCMotor_trace ts m g ! i)"
proof (induction ts arbitrary: m g i)
  case Nil
  then show ?case by simp
next
  case (Cons t ts)
  show ?case
  proof (cases "DCMotor_cycle t m g")
    case (Inl e)
    then show ?thesis using Cons.prems(2) by simp
  next
    case (Inr r)
    obtain m' g' where r: "r = (m', g')" by (cases r)
    have step: "DCMotor_cycle t m g = Inr (m', g')" using Inr r by simp
    note res = dc_cycle_result [OF step]
    show ?thesis
    proof (cases i)
      case 0
      have "0 \<le> g 1" using Cons.prems(1) by blast
      then show ?thesis using 0 step res(1) by (simp add: dc_trace_hd)
    next
      case (Suc j)
      have "\<forall>k. 0 \<le> g' k" using Cons.prems(1) res(2) by simp
      moreover have "Suc j < length (DCMotor_trace ts m' g')"
        using Cons.prems(2) Suc step by simp
      ultimately have "efficiency (DCMotor_trace ts m' g' ! Suc j)
                         \<le> efficiency (DCMotor_trace ts m' g' ! j)"
        by (rule Cons.IH)
      then show ?thesis using Suc step by simp
    qed
  qed
qed

lemma ac_trace_efficiency:
  "\<forall>k. 0 \<le> g k \<Longrightarrow> Suc i < length (ACMotor_trace ts m g) \<Longrightarrow>
     efficiency (ACMotor_trace ts m g ! Suc i) \<le> efficiency (ACMotor_trace ts m g ! i)"
proof (induction ts arbitrary: m g i)
  case Nil
  then show ?case by simp
next
  case (Cons t ts)
  show ?case
  proof (cases "ACMotor_cycle t m g")
    case (Inl e)
    then show ?thesis using Cons.prems(2) by simp
  next
    case (Inr r)
    obtain m' g' where r: "r = (m', g')" by (cases r)
    have step: "ACMotor_cycle t m g = Inr (m', g')" using Inr r by simp
    note res = ac_cycle_result [OF step]
    show ?thesis
    proof (cases i)
      case 0
      have "0 \<le> g 1" using Cons.prems(1) by blast
      then show ?thesis using 0 step res(1) by (simp add: ac_trace_hd)
    next
      case (Suc j)
      have "\<forall>k. 0 \<le> g' k" using Cons.prems(1) res(2) by simp
      moreover have "Suc j < length (ACMotor_trace ts m' g')"
        using Cons.prems(2) Suc step by simp
      ultimately have "efficiency (ACMotor_trace ts m' g' ! Suc j)
                         \<le> efficiency (ACMotor_trace ts m' g' ! j)"
        by (rule Cons.IH)
      then show ?thesis using Suc step by simp
    qed
  qed
qed

text \<open>
  Claim C4. For every motor, DC or AC, and every run of control-then-update cycles whose
  random draws are values of \<open>random.random()\<close> (in \<open>[0, 1)\<close>), the efficiency after cycle
  \<open>t + 1\<close> is at most the efficiency after cycle \<open>t\<close>: the decrement
  \<open>uniform(0, 0.001)\<close> is never negative. This holds for every pair of consecutive states
  the run reaches; when no target raises in the conversion to float, the run reaches one
  state per target, so every \<open>t\<close> below the number of targets is covered.
\<close>

theorem efficiency_never_increases:
  assumes "\<forall>k. 0 \<le> g k \<and> g k < 1"
  shows "(t + 1 < length (DCMotor_trace targets dc g) \<longrightarrow>
            efficiency (DCMotor_trace targets dc g ! (t + 1))
              \<le> efficiency (DCMotor_trace targets dc g ! t))
       \<and> (t + 1 < length (ACMotor_trace targets ac g) \<longrightarrow>
            efficiency (ACMotor_trace targets ac g ! (t + 1))
              \<le> efficiency (ACMotor_trace targets ac g ! t))
       \<and> (list_all (\<lambda>x. \<not> isl (to_float x)) targets \<longrightarrow>
            length (DCMotor_trace targets dc g) = length targets + 1
          \<and> length (ACMotor_trace targets ac g) = length targets + 1)"
  using assms dc_trace_efficiency [of g t targets dc] ac_trace_efficiency [of g t targets ac]
  by (simp add: dc_trace_length ac_trace_length)

theorem efficiency_never_increases_witness:
  "(\<forall>k. (0::real) \<le> 1 / 2 \<and> (1 / 2 :: real) < 1)
   \<and> list_all (\<lambda>x. \<not> isl (to_float x)) [PyInt 1000]
   \<and> 0 + 1 < length (DCMotor_trace [PyInt 1000] (DCMotor_init ''Line_1_M0_DC'') (\<lambda>k. 1 / 2))
   \<and> 0 + 1 < length (ACMotor_trace [PyInt 1000] (ACMotor_init ''Line_1_M0_AC'') (\<lambda>k. 1 / 2))
   \<and> efficiency (DCMotor_trace [PyInt 1000] (DCMotor_init ''Line_1_M0_DC'') (\<lambda>k. 1 / 2) ! (0 + 1))
        \<le> efficiency (DCMotor_trace [PyInt 1000] (DCMotor_init ''Line_1_M0_DC'') (\<lambda>k. 1 / 2) ! 0)
   \<and> efficiency (ACMotor_trace [PyInt 1000] (ACMotor_init ''Line_1_M0_AC'') (\<lambda>k. 1 / 2) ! (0 + 1))
        \<le> efficiency (ACMotor_trace [PyInt 1000] (ACMotor_init ''Line_1_M0_AC'') (\<lambda>k. 1 / 2) ! 0)"
proof -
  let ?g = "\<lambda>k::nat. (1 / 2 :: real)"
  let ?dc = "DCMotor_init ''Line_1_M0_DC''"
  let ?ac = "ACMotor_init ''Line_1_M0_AC''"
  have g: "\<forall>k. 0 \<le> ?g k \<and> ?g k < 1" by simp
  have c: "list_all (\<lambda>x. \<not> isl (to_float x)) [PyInt 1000]"
    using to_float_small [of 1000] by simp
  note th = efficiency_never_increases [OF g, of 0 "[PyInt 1000]" ?dc ?ac]
  have len: "length (DCMotor_trace [PyInt 1000] ?dc ?g) = length [PyInt 1000] + 1"
    "length (ACMotor_trace [PyInt 1000] ?ac ?g) = length [PyInt 1000] + 1"
    using th c by blast+
  have "0 + 1 < length (DCMotor_trace [PyInt 1000] ?dc ?g)"
    "0 + 1 < length (ACMotor_trace [PyInt 1000] ?ac ?g)"
    by (simp_all only: len) simp_all
  then show ?thesis using th g c by blast
qed

lemma dc_cycle_speed_bounds:
  assumes "DCMotor_cycle target m g = Inr (m', g')" and "0 \<le> speed m" "speed m \<le> 1500"
  shows "0 \<le> speed m' \<and> speed m' \<le> 1500"
proof -
  obtain s where s: "0 \<le> s" "s \<le> 1"
    and sp: "speed m' = speed m + (s * 480 * 3.125 - speed m) / 10"
    using dc_cycle_result(3) [OF assms(1)] by blast
  have "speed m + (s * 480 * 3.125 - speed m) / 10 = 0.9 * speed m + 150 * s"
    by (simp add: field_simps)
  moreover have "0 \<le> 0.9 * speed m + 150 * s" "0.9 * speed m + 150 * s \<le> 1500"
    using assms(2,3) s by simp_all
  ultimately show ?thesis using sp by simp
qed

lemma dc_trace_speed_bounds:
  "0 \<le> speed m \<Longrightarrow> speed m \<le> 1500 \<Longrightarrow>
     list_all (\<lambda>m'. 0 \<le> speed m' \<and> speed m' \<le> 1500) (DCMotor_trace ts m g)"
proof (induction ts arbitrary: m g)
  case Nil
  then show ?case by simp
next
  case (Cons t ts)
  show ?case
  proof (cases "DCMotor_cycle t m g")
    case (Inl e)
    then show ?thesis using Cons.prems by simp
  next
    case (Inr r)
    obtain m' g' where r: "r = (m', g')" by (cases r)
    have step: "DCMotor_cycle t m g = Inr (m', g')" using Inr r by simp
    have "0 \<le> speed m' \<and> speed m' \<le> 1500"
      using dc_cycle_speed_bounds [OF step Cons.prems] .
    then have "list_all (\<lambda>m'. 0 \<le> speed m' \<and> speed m' \<le> 1500) (DCMotor_trace ts m' g')"
      using Cons.IH by blast
    then show ?thesis using Cons.prems step by simp
  qed
qed

text \<open>
  Claim C10. Starting from a new DC motor (speed 0), the speed is in \<open>[0, 1500]\<close> before the
  first and after every control-then-update cycle, whatever the targets and the random
  draws: the signal is clamped to \<open>[0, 1]\<close> and the new speed is
  \<open>0.9 * speed + 0.1 * (signal * 1500)\<close>.
\<close>

theorem dc_speed_bounded:
  "list_all (\<lambda>m. 0 \<le> speed m \<and> speed m \<le> 1500)
     (DCMotor_trace targets (DCMotor_init mid) g)"
  by (rule dc_trace_speed_bounds) (simp_all add: DCMotor_init_def Motor_init_def Motor.defs)

subsection \<open>Motor identities\<close>

lemma digit_char_in: "d < 10 \<Longrightarrow> digit_char d \<in> set ''0123456789''"
  unfolding digit_char_def by (rule nth_mem) simp

lemma digit_char_inj: "d < 10 \<Longrightarrow> d' < 10 \<Longrightarrow> digit_char d = digit_char d' \<Longrightarrow> d = d'"
proof -
  assume a: "d < 10" "d' < 10" "digit_char d = digit_char d'"
  have "distinct ''0123456789''" by simp
  moreover have "d < length ''0123456789''" "d' < length ''0123456789''" using a by simp_all
  ultimately show "d = d'" using a(3) unfolding digit_char_def
    by (simp only: nth_eq_iff_index_eq)
qed

lemma str_nat_digits: "set (str_nat n) \<subseteq> set ''0123456789''"
proof (induction n rule: str_nat.induct)
  case (1 n)
  show ?case
  proof (cases "n < 10")
    case True
    then show ?thesis using digit_char_in [of n] by (subst str_nat.simps) simp
  next
    case False
    have "n mod 10 < 10" by simp
    then have "digit_char (n mod 10) \<in> set ''0123456789''" by (rule digit_char_in)
    then show ?thesis using False 1 by (subst str_nat.simps) simp
  qed
qed

lemma str_nat_nonempty: "str_nat n \<noteq> []"
  by (subst str_nat.simps) simp

lemma str_nat_inj: "str_nat n = str_nat m \<Longrightarrow> n = m"
proof (induction n arbitrary: m rule: str_nat.induct)
  case (1 n)
  show ?case
  proof (cases "n < 10")
    case small_n: True
    show ?thesis
    proof (cases "m < 10")
      case True
      then show ?thesis using small_n "1.prems" digit_char_inj [of n m]
        by (simp add: str_nat.simps [of n] str_nat.simps [of m])
    next
      case False
      then show ?thesis using small_n "1.prems" str_nat_nonempty [of "m div 10"]
        by (simp add: str_nat.simps [of n] str_nat.simps [of m])
    qed
  next
    case big_n: False
    show ?thesis
    proof (cases "m < 10")
      case True
      then show ?thesis using big_n "1.prems" str_nat_nonempty [of "n div 10"]
        by (simp add: str_nat.simps [of n] str_nat.simps [of m])
    next
      case False
      have eq: "str_nat (n div 10) @ [digit_char (n mod 10)]
                 = str_nat (m div 10) @ [digit_char (m mod 10)]"
        using big_n False "1.prems" by (simp add: str_nat.simps [of n] str_nat.simps [of m])
      then have "str_nat (n div 10) = str_nat (m div 10)"
        and d: "digit_char (n mod 10) = digit_char (m mod 10)" by simp_all
      then have "n div 10 = m div 10" using "1.IH" big_n by blast
      moreover have "n mod 10 = m mod 10" using d digit_char_inj [of "n mod 10" "m mod 10"] by simp
      ultimately show ?thesis by (metis div_mult_mod_eq)
    qed
  qed
qed

lemma str_int_nonneg: "0 \<le> i \<Longrightarrow> str_int i = str_nat (nat i)"
  by (simp add: str_int_def)

lemma str_int_inj: "0 \<le> i \<Longrightarrow> 0 \<le> j \<Longrightarrow> str_int i = str_int j \<Longrightarrow> i = j"
  using str_nat_inj [of "nat i" "nat j"] by (simp add: str_int_nonneg)

lemma str_int_no_underscore: "0 \<le> i \<Longrightarrow> CHR ''_'' \<notin> set (str_int i)"
  using str_nat_digits [of "nat i"] by (auto simp add: str_int_nonneg)

lemma split_at_separator:
  assumes "c \<notin> set xs" "c \<notin> set xs'" "xs @ c # ys = xs' @ c # ys'"
  shows "xs = xs' \<and> ys = ys'"
  using assms
proof (induction xs arbitrary: xs')
  case Nil
  then show ?case by (cases xs') auto
next
  case (Cons x xs)
  then show ?case by (cases xs') auto
qed

lemma motor_name_inj:
  assumes "0 \<le> i" "0 \<le> j" "0 \<le> i'" "0 \<le> j'"
    and "motor_name i j (CHR ''_'' # t) = motor_name i' j' (CHR ''_'' # t')"
  shows "i = i' \<and> j = j' \<and> t = t'"
proof -
  have ni: "CHR ''_'' \<notin> set (str_int (i + 1))" "CHR ''_'' \<notin> set (str_int (i' + 1))"
    using assms by (simp_all add: str_int_no_underscore)
  have nj: "CHR ''_'' \<notin> set (CHR ''M'' # str_int j)" "CHR ''_'' \<notin> set (CHR ''M'' # str_int j')"
    using assms by (simp_all add: str_int_no_underscore)
  have "str_int (i + 1) @ CHR ''_'' # ((CHR ''M'' # str_int j) @ CHR ''_'' # t)
        = str_int (i' + 1) @ CHR ''_'' # ((CHR ''M'' # str_int j') @ CHR ''_'' # t')"
    using assms(5) by (simp add: motor_name_def)
  then have "str_int (i + 1) = str_int (i' + 1)
     \<and> (CHR ''M'' # str_int j) @ CHR ''_'' # t = (CHR ''M'' # str_int j') @ CHR ''_'' # t'"
    using ni by (intro split_at_separator)
  then have a: "str_int (i + 1) = str_int (i' + 1)"
    and b: "(CHR ''M'' # str_int j) @ CHR ''_'' # t = (CHR ''M'' # str_int j') @ CHR ''_'' # t'"
    by simp_all
  from b have "CHR ''M'' # str_int j = CHR ''M'' # str_int j' \<and> t = t'"
    using nj by (intro split_at_separator)
  then have c: "str_int j = str_int j' \<and> t = t'" by simp
  have "i + 1 = i' + 1" using a assms str_int_inj [of "i + 1" "i' + 1"] by simp
  moreover have "j = j'" using c assms str_int_inj [of j j'] by simp
  ultimately show ?thesis using c by simp
qed

subsection \<open>The log across a run\<close>

lemma log_append_keys:
  "map fst (log_append k c s t l) =
     (if k \<in> set (map fst l) then map fst l else map fst l @ [k])"
  by (simp add: log_append_def Let_def AList.update_keys)

lemma log_append_lengths:
  "entry_lengths (entry_of (log_append k c s t l) k') =
     (if k' = k then map Suc (entry_lengths (entry_of l k')) else entry_lengths (entry_of l k'))"
  by (simp add: log_append_def Let_def entry_of_def entry_lengths_def AList.update_conv')

lemma appended_append:
  "appended xs l l1 \<Longrightarrow> appended ys l1 l2 \<Longrightarrow> appended (xs @ ys) l l2"
  by (induction rule: appended.induct) (auto intro: appended.intros)

lemma appended_keys_set:
  "appended ks l l' \<Longrightarrow> set (map fst l') = set (map fst l) \<union> set ks"
  by (induction rule: appended.induct) (auto simp: log_append_keys split: if_splits)

lemma appended_distinct:
  "appended ks l l' \<Longrightarrow> distinct (map fst l) \<Longrightarrow> distinct (map fst l')"
  by (induction rule: appended.induct) (auto simp: log_append_keys split: if_splits)

lemma appended_keys_new:
  "appended ks l l' \<Longrightarrow> distinct ks \<Longrightarrow> set ks \<inter> set (map fst l) = {} \<Longrightarrow>
     map fst l' = map fst l @ ks"
  by (induction rule: appended.induct) (auto simp: log_append_keys split: if_splits)

lemma appended_keys_old:
  "appended ks l l' \<Longrightarrow> set ks \<subseteq> set (map fst l) \<Longrightarrow> map fst l' = map fst l"
  by (induction rule: appended.induct) (auto simp: log_append_keys split: if_splits)

lemma appended_lengths:
  "appended ks l l' \<Longrightarrow>
     entry_lengths (entry_of l' k) = map (\<lambda>n. n + count_list ks k) (entry_lengths (entry_of l k))"
  by (induction rule: appended.induct) (auto simp: log_append_lengths)

lemma reference_default:
  "get_speed_reference hash cycle mid 50 =
     Inr ((\<bar>hash mid\<bar> mod 200 + 1000) + 100 * ((cycle div 50) mod 4))"
  by (rule get_speed_reference_value) simp

lemma reference_default_converts:
  "to_float (PyInt ((\<bar>hash mid\<bar> mod 200 + 1000) + 100 * ((cycle div 50) mod 4))) =
     Inr (of_int ((\<bar>hash mid\<bar> mod 200 + 1000) + 100 * ((cycle div 50) mod 4)))"
proof (rule to_float_small)
  have "0 \<le> \<bar>hash mid\<bar> mod 200" "\<bar>hash mid\<bar> mod 200 < 200" by simp_all
  moreover have "0 \<le> (cycle div 50) mod 4" "(cycle div 50) mod 4 < 4" by simp_all
  ultimately show "\<bar>(\<bar>hash mid\<bar> mod 200 + 1000) + 100 * ((cycle div 50) mod 4)\<bar> < 1500"
    by linarith
qed

lemma machine_step:
  "\<exists>msg m' l' g'. Machine_update_machines hash cycle m l g = Inr (msg, m', l', g')
     \<and> appended (machine_ids m) l l' \<and> machine_ids m' = machine_ids m"
  by (auto simp: Machine_update_machines_def reference_default Let_def machine_ids_def
      dc_control_fields [OF reference_default_converts]
      ac_control_fields [OF reference_default_converts]
      dc_update_fields ac_update_fields
      intro!: appended.intros)

lemma machines_step:
  "\<exists>ms' l' g'. update_each_machine hash cycle ms l g = Inr (ms', l', g')
     \<and> appended (concat (map machine_ids ms)) l l' \<and> map machine_ids ms' = map machine_ids ms"
proof (induction ms arbitrary: l g)
  case Nil
  show ?case by (simp add: appended_Nil)
next
  case (Cons m ms)
  obtain msg m' l1 g1 where m: "Machine_update_machines hash cycle m l g = Inr (msg, m', l1, g1)"
    "appended (machine_ids m) l l1" "machine_ids m' = machine_ids m"
    using machine_step [of hash cycle m l g] by blast
  obtain ms' l2 g2 where ms: "update_each_machine hash cycle ms l1 g1 = Inr (ms', l2, g2)"
    "appended (concat (map machine_ids ms)) l1 l2" "map machine_ids ms' = map machine_ids ms"
    using Cons.IH [of l1 g1] by blast
  have "appended (machine_ids m @ concat (map machine_ids ms)) l l2"
    using m(2) ms(2) by (rule appended_append)
  then show ?case using m ms by simp
qed

lemma line_step:
  "\<exists>line' l' g'. ProductionLine_update_production_line hash cycle line l g = Inr (line', l', g')
     \<and> appended (line_ids line) l l' \<and> line_ids line' = line_ids line"
proof -
  obtain ms' l' g' where "update_each_machine hash cycle (machines line) l g = Inr (ms', l', g')"
    "appended (concat (map machine_ids (machines line))) l l'"
    "map machine_ids ms' = map machine_ids (machines line)"
    using machines_step [of hash cycle "machines line" l g] by blast
  then show ?thesis
    by (simp add: ProductionLine_update_production_line_def line_ids_def)
qed

lemma lines_step:
  "\<exists>lines' l' g'. update_each_line hash cycle lines l g = Inr (lines', l', g')
     \<and> appended (concat (map line_ids lines)) l l' \<and> map line_ids lines' = map line_ids lines"
proof (induction lines arbitrary: l g)
  case Nil
  show ?case by (simp add: appended_Nil)
next
  case (Cons x xs)
  obtain x' l1 g1 where x: "ProductionLine_update_production_line hash cycle x l g = Inr (x', l1, g1)"
    "appended (line_ids x) l l1" "line_ids x' = line_ids x"
    using line_step [of hash cycle x l g] by blast
  obtain xs' l2 g2 where xs: "update_each_line hash cycle xs l1 g1 = Inr (xs', l2, g2)"
    "appended (concat (map line_ids xs)) l1 l2" "map line_ids xs' = map line_ids xs"
    using Cons.IH [of l1 g1] by blast
  have "appended (line_ids x @ concat (map line_ids xs)) l l2"
    using x(2) xs(2) by (rule appended_append)
  then show ?case using x xs by simp
qed

lemma cycles_run:
  "\<exists>f' l' g'. run_cycles hash cycles f l g = Inr (f', l', g')
     \<and> appended (concat (replicate (length cycles) (factory_ids f))) l l'
     \<and> factory_ids f' = factory_ids f"
proof (induction cycles arbitrary: f l g)
  case Nil
  show ?case by (simp add: appended_Nil)
next
  case (Cons c cs)
  obtain lines l1 g1 where s: "update_each_line hash c (production_lines f) l g = Inr (lines, l1, g1)"
    "appended (factory_ids f) l l1" "map line_ids lines = map line_ids (production_lines f)"
    using lines_step [of hash c "production_lines f" l g] by (auto simp: factory_ids_def)
  define f1 where "f1 = f\<lparr>production_lines := lines\<rparr>"
  have ids: "factory_ids f1 = factory_ids f" using s(3) by (simp add: f1_def factory_ids_def)
  obtain f' l2 g2 where r: "run_cycles hash cs f1 l1 g1 = Inr (f', l2, g2)"
    "appended (concat (replicate (length cs) (factory_ids f1))) l1 l2"
    "factory_ids f' = factory_ids f1"
    using Cons.IH [of f1 l1 g1] by blast
  have "appended (factory_ids f @ concat (replicate (length cs) (factory_ids f))) l l2"
    using s(2) r(2) ids by (simp add: appended_append)
  then show ?case using s r ids by (simp add: f1_def)
qed

lemma py_range_length: "length (py_range a b) = nat (b - a)"
  by (simp add: py_range_def)

lemma py_range_set: "set (py_range a b) = {a..b - 1}"
  by (simp add: py_range_def)

lemma py_range_distinct: "distinct (py_range a b)"
  by (simp add: py_range_def)

lemma simulation_run:
  "\<exists>f' l' g'. simulation hash L M N g = Inr (f', l', g')
     \<and> appended (concat (replicate (nat N)
           (factory_ids (Factory_init ''Smart Information Model Factory'' L M)))) [] l'"
  using cycles_run [of hash "py_range 1 (N + 1)"
      "Factory_init ''Smart Information Model Factory'' L M" "[]" g]
  by (auto simp: simulation_def py_range_length)

lemma count_list_concat_replicate:
  "count_list (concat (replicate n xs)) x = n * count_list xs x"
  by (induction n) simp_all

lemma distinct_count_list: "distinct xs \<Longrightarrow> x \<in> set xs \<Longrightarrow> count_list xs x = 1"
  by (induction xs) (auto simp: count_list_0_iff)

lemma distinct_concat_map:
  assumes "distinct xs" "\<And>x. x \<in> set xs \<Longrightarrow> distinct (f x)"
    "\<And>x y. x \<in> set xs \<Longrightarrow> y \<in> set xs \<Longrightarrow> x \<noteq> y \<Longrightarrow> set (f x) \<inter> set (f y) = {}"
  shows "distinct (concat (map f xs))"
  using assms by (induction xs) fastforce+

lemma length_concat_map_const:
  "(\<And>x. x \<in> set xs \<Longrightarrow> length (f x) = c) \<Longrightarrow> length (concat (map f xs)) = length xs * c"
  by (induction xs) simp_all

lemma factory_init_ids: "factory_ids (Factory_init name L M) = motor_names L M"
  by (simp add: factory_ids_def Factory_init_def line_ids_def ProductionLine_init_def
      machine_ids_def Machine_init_def DCMotor_init_def ACMotor_init_def Motor_init_def
      Motor.defs motor_names_def motor_name_def comp_def Let_def)

lemma motor_name_eq_iff:
  assumes "0 \<le> i" "0 \<le> j" "0 \<le> i'" "0 \<le> j'"
  shows "motor_name i j (CHR ''_'' # t) = motor_name i' j' (CHR ''_'' # t')
           \<longleftrightarrow> i = i' \<and> j = j' \<and> t = t'"
  using motor_name_inj [OF assms] by blast

lemma motor_names_length: "length (motor_names L M) = nat L * (nat M * 2)"
proof -
  have inner: "length (concat (map (\<lambda>j. [motor_name i j ''_DC'', motor_name i j ''_AC''])
                (py_range 0 M))) = length (py_range 0 M) * 2" for i
    by (rule length_concat_map_const) simp
  have "length (motor_names L M) = length (py_range 0 L) * (length (py_range 0 M) * 2)"
    unfolding motor_names_def by (rule length_concat_map_const) (rule inner)
  then show ?thesis by (simp add: py_range_length)
qed

lemma line_names_distinct:
  assumes "0 \<le> i"
  shows "distinct (concat (map (\<lambda>j. [motor_name i j ''_DC'', motor_name i j ''_AC''])
                      (py_range 0 M)))"
proof (rule distinct_concat_map)
  show "distinct (py_range 0 M)" by (rule py_range_distinct)
next
  fix j assume "j \<in> set (py_range 0 M)"
  then have "0 \<le> j" by (simp add: py_range_set)
  then show "distinct [motor_name i j ''_DC'', motor_name i j ''_AC'']"
    using assms by (simp add: motor_name_eq_iff)
next
  fix j j' assume "j \<in> set (py_range 0 M)" "j' \<in> set (py_range 0 M)" "j \<noteq> j'"
  then have "0 \<le> j" "0 \<le> j'" "j \<noteq> j'" by (simp_all add: py_range_set)
  then show "set [motor_name i j ''_DC'', motor_name i j ''_AC'']
               \<inter> set [motor_name i j' ''_DC'', motor_name i j' ''_AC''] = {}"
    using assms by (simp add: motor_name_eq_iff)
qed

lemma motor_names_distinct: "distinct (motor_names L M)"
  unfolding motor_names_def
proof (rule distinct_concat_map)
  show "distinct (py_range 0 L)" by (rule py_range_distinct)
next
  fix i assume "i \<in> set (py_range 0 L)"
  then have "0 \<le> i" by (simp add: py_range_set)
  then show "distinct (concat (map (\<lambda>j. [motor_name i j ''_DC'', motor_name i j ''_AC''])
                      (py_range 0 M)))"
    by (rule line_names_distinct)
next
  fix i i' assume "i \<in> set (py_range 0 L)" "i' \<in> set (py_range 0 L)" "i \<noteq> i'"
  then have i: "0 \<le> i" "0 \<le> i'" "i \<noteq> i'" by (simp_all add: py_range_set)
  show "set (concat (map (\<lambda>j. [motor_name i j ''_DC'', motor_name i j ''_AC'']) (py_range 0 M)))
      \<inter> set (concat (map (\<lambda>j. [motor_name i' j ''_DC'', motor_name i' j ''_AC'']) (py_range 0 M)))
      = {}"
  proof (rule ccontr)
    assume "\<not> ?thesis"
    then obtain j j' t t' where "0 \<le> j" "0 \<le> j'"
      "motor_name i j (CHR ''_'' # t) = motor_name i' j' (CHR ''_'' # t')"
      by (auto simp: py_range_set)
    then show False using i motor_name_inj [of i j i' j' t t'] by simp
  qed
qed

inductive_cases appended_ConsE: "appended (k # ks) l l'"

lemma appended_split:
  "appended (xs @ ys) l l2 \<Longrightarrow> \<exists>l1. appended xs l l1 \<and> appended ys l1 l2"
proof (induction xs arbitrary: l)
  case Nil
  then show ?case by (auto intro: appended_Nil)
next
  case (Cons x xs)
  from Cons.prems obtain c s t where "appended (xs @ ys) (log_append x c s t l) l2"
    by (auto elim: appended_ConsE)
  then obtain l1 where "appended xs (log_append x c s t l) l1" "appended ys l1 l2"
    using Cons.IH by blast
  then show ?case by (auto intro: appended_Cons)
qed

lemma appended_first_cycles:
  assumes "appended (concat (replicate n ids)) [] l'" and "distinct ids"
  shows "distinct (map fst l')"
    and "set (map fst l') \<subseteq> set ids"
    and "0 < n \<Longrightarrow> map fst l' = ids"
proof -
  show "distinct (map fst l')" using appended_distinct [OF assms(1)] by simp
  show "set (map fst l') \<subseteq> set ids" using appended_keys_set [OF assms(1)] by auto
  assume "0 < n"
  then obtain k where n: "n = Suc k" by (cases n) auto
  then have "appended (ids @ concat (replicate k ids)) [] l'" using assms(1) by simp
  then obtain l1 where l1: "appended ids [] l1" "appended (concat (replicate k ids)) l1 l'"
    using appended_split by blast
  have "map fst l1 = ids" using appended_keys_new [OF l1(1) assms(2)] by simp
  moreover have "set (concat (replicate k ids)) \<subseteq> set (map fst l1)"
    using \<open>map fst l1 = ids\<close> by auto
  ultimately show "map fst l' = ids" using appended_keys_old [OF l1(2)] by simp
qed

lemma new_log_lengths: "entry_lengths (entry_of [] k) = replicate 7 0"
  by (simp add: entry_of_def new_log_def entry_lengths_def numeral_eq_Suc)

lemma simulation_result:
  "\<exists>f' l' g'. simulation hash L M N g = Inr (f', l', g')
     \<and> distinct (map fst l') \<and> set (map fst l') \<subseteq> set (motor_names L M)
     \<and> (1 \<le> N \<longrightarrow> map fst l' = motor_names L M)
     \<and> (\<forall>k. entry_lengths (entry_of l' k) = replicate 7 (nat N * count_list (motor_names L M) k))"
proof -
  obtain f' l' g' where sim: "simulation hash L M N g = Inr (f', l', g')"
    and app: "appended (concat (replicate (nat N) (motor_names L M))) [] l'"
    using simulation_run [of hash L M N g] by (auto simp: factory_init_ids)
  note keys = appended_first_cycles [OF app motor_names_distinct]
  have "entry_lengths (entry_of l' k) = replicate 7 (nat N * count_list (motor_names L M) k)" for k
    using appended_lengths [OF app, of k]
    by (simp add: new_log_lengths count_list_concat_replicate)
  moreover have "1 \<le> N \<longrightarrow> map fst l' = motor_names L M" using keys(3) by simp
  ultimately show ?thesis using sim keys(1,2) by blast
qed

lemma entry_lengths_all:
  "entry_lengths e = replicate 7 n \<Longrightarrow>
     length (log_cycle e) = n \<and> length (log_speed e) = n \<and> length (log_temperature e) = n
     \<and> length (log_efficiency e) = n \<and> length (log_current e) = n
     \<and> length (log_torque e) = n \<and> length (log_reference e) = n"
  by (simp add: entry_lengths_def numeral_eq_Suc)

text \<open>The identities of the script's own factory: 2 lines of 2 machines.\<close>

lemma str_int_small: "str_int 0 = ''0''" "str_int 1 = ''1''" "str_int 2 = ''2''"
  by (simp_all add: str_int_def str_nat.simps [of 0] str_nat.simps [of 1]
      str_nat.simps [of "Suc 0"] str_nat.simps [of 2] digit_char_def)

lemma py_range_0_2: "py_range 0 2 = [0, 1]"
  by (simp add: py_range_def upto_rec1)

lemma motor_names_2_2:
  "motor_names 2 2 =
     [''Line_1_M0_DC'', ''Line_1_M0_AC'', ''Line_1_M1_DC'', ''Line_1_M1_AC'',
      ''Line_2_M0_DC'', ''Line_2_M0_AC'', ''Line_2_M1_DC'', ''Line_2_M1_AC'']"
  by (simp add: motor_names_def motor_name_def py_range_0_2 str_int_small)

text \<open>
  Claim C5. For every configuration the run returns, and in the log it returns every motor
  identity present has all seven sequences (cycle, speed, temperature, efficiency, current,
  torque, reference) of length exactly the number of cycles run.
\<close>

theorem log_lengths:
  "\<exists>factory motor_logs g'.
     simulation hash L M N g = Inr (factory, motor_logs, g')
     \<and> (\<forall>mid e. map_of motor_logs mid = Some e \<longrightarrow>
           length (log_cycle e) = nat N \<and> length (log_speed e) = nat N
         \<and> length (log_temperature e) = nat N \<and> length (log_efficiency e) = nat N
         \<and> length (log_current e) = nat N \<and> length (log_torque e) = nat N
         \<and> length (log_reference e) = nat N)"
proof -
  obtain f' l' g' where sim: "simulation hash L M N g = Inr (f', l', g')"
    and keys: "set (map fst l') \<subseteq> set (motor_names L M)"
    and lens: "\<And>k. entry_lengths (entry_of l' k)
                  = replicate 7 (nat N * count_list (motor_names L M) k)"
    using simulation_result [of hash L M N g] by blast
  have "length (log_cycle e) = nat N \<and> length (log_speed e) = nat N
         \<and> length (log_temperature e) = nat N \<and> length (log_efficiency e) = nat N
         \<and> length (log_current e) = nat N \<and> length (log_torque e) = nat N
         \<and> length (log_reference e) = nat N" if e: "map_of l' mid = Some e" for mid e
  proof -
    have "mid \<in> set (map fst l')" using e by (force dest: map_of_SomeD)
    then have "count_list (motor_names L M) mid = 1"
      using keys by (intro distinct_count_list motor_names_distinct) auto
    moreover have "entry_of l' mid = e" using e by (simp add: entry_of_def)
    ultimately have "entry_lengths e = replicate 7 (nat N)" using lens [of mid] by simp
    then show ?thesis by (rule entry_lengths_all)
  qed
  then show ?thesis using sim by blast
qed

theorem log_lengths_witness:
  "\<exists>factory motor_logs g' e.
     simulation (\<lambda>s. 0) 2 2 101 (\<lambda>k. 0) = Inr (factory, motor_logs, g')
     \<and> map_of motor_logs ''Line_2_M1_AC'' = Some e
     \<and> length (log_cycle e) = 101 \<and> length (log_reference e) = 101"
proof -
  obtain f' l' g' where sim: "simulation (\<lambda>s. 0) 2 2 101 (\<lambda>k. 0) = Inr (f', l', g')"
    and lens: "\<forall>mid e. map_of l' mid = Some e \<longrightarrow>
           length (log_cycle e) = nat 101 \<and> length (log_speed e) = nat 101
         \<and> length (log_temperature e) = nat 101 \<and> length (log_efficiency e) = nat 101
         \<and> length (log_current e) = nat 101 \<and> length (log_torque e) = nat 101
         \<and> length (log_reference e) = nat 101"
    using log_lengths [of "\<lambda>s. 0" 2 2 101 "\<lambda>k. 0"] by blast
  have "map fst l' = motor_names 2 2"
    using simulation_result [of "\<lambda>s. 0" 2 2 101 "\<lambda>k. 0"] sim by auto
  then have "''Line_2_M1_AC'' \<in> fst ` set l'"
    using motor_names_2_2 by (simp flip: set_map)
  then obtain e where e: "map_of l' ''Line_2_M1_AC'' = Some e"
    by (cases "map_of l' ''Line_2_M1_AC''") (simp_all add: map_of_eq_None_iff)
  then have "length (log_cycle e) = 101 \<and> length (log_reference e) = 101"
    using lens by simp
  then show ?thesis using sim e by blast
qed

text \<open>
  Claim C6. For a factory built with \<open>L\<close> lines and \<open>M\<close> machines per line, after any
  number \<open>N \<ge> 1\<close> of cycles the keys of the log are pairwise distinct, there are exactly
  \<open>2 * L * M\<close> of them, and they are the identities \<open>Line_{i+1}_M{j}_DC\<close> and
  \<open>Line_{i+1}_M{j}_AC\<close> of all machines, in construction order.
\<close>

theorem log_identities:
  assumes "0 \<le> L" and "0 \<le> M" and "1 \<le> N"
  shows "\<exists>factory motor_logs g'.
     simulation hash L M N g = Inr (factory, motor_logs, g')
     \<and> distinct (map fst motor_logs)
     \<and> int (card (set (map fst motor_logs))) = 2 * L * M
     \<and> map fst motor_logs = motor_names L M"
proof -
  obtain f' l' g' where sim: "simulation hash L M N g = Inr (f', l', g')"
    and d: "distinct (map fst l')" and keys: "map fst l' = motor_names L M"
    using simulation_result [of hash L M N g] assms(3) by blast
  have "card (set (map fst l')) = length (map fst l')" using d by (rule distinct_card)
  also have "\<dots> = nat L * (nat M * 2)" using keys by (simp add: motor_names_length)
  finally have "int (card (set (map fst l'))) = 2 * L * M" using assms by simp
  then show ?thesis using sim d keys by blast
qed

theorem log_identities_witness:
  "(0::int) \<le> 2 \<and> (1::int) \<le> 101
   \<and> (\<exists>factory motor_logs g'.
        simulation (\<lambda>s. 0) 2 2 101 (\<lambda>k. 0) = Inr (factory, motor_logs, g')
        \<and> card (set (map fst motor_logs)) = 8
        \<and> map fst motor_logs =
            [''Line_1_M0_DC'', ''Line_1_M0_AC'', ''Line_1_M1_DC'', ''Line_1_M1_AC'',
             ''Line_2_M0_DC'', ''Line_2_M0_AC'', ''Line_2_M1_DC'', ''Line_2_M1_AC''])"
  using log_identities [of 2 2 101 "\<lambda>s. 0" "\<lambda>k. 0"] motor_names_2_2 by auto

subsection \<open>Configurations without work\<close>

lemma py_range_empty: "b \<le> a \<Longrightarrow> py_range a b = []"
  by (simp add: py_range_def)

lemma idle_lines:
  "list_all (\<lambda>line. machines line = []) lines \<Longrightarrow>
     update_each_line hash cycle lines l g = Inr (lines, l, g)"
  by (induction lines) (simp_all add: ProductionLine_update_production_line_def)

lemma idle_cycles:
  "list_all (\<lambda>line. machines line = []) (production_lines f) \<Longrightarrow>
     run_cycles hash cycles f l g = Inr (f, l, g)"
  by (induction cycles) (simp_all add: idle_lines)

lemma factory_no_lines: "L \<le> 0 \<Longrightarrow> production_lines (Factory_init name L M) = []"
  by (simp add: Factory_init_def py_range_empty)

lemma factory_no_machines:
  "M \<le> 0 \<Longrightarrow> list_all (\<lambda>line. machines line = []) (production_lines (Factory_init name L M))"
  by (simp add: Factory_init_def ProductionLine_init_def py_range_empty list_all_iff)

lemma factory_shape:
  "length (production_lines (Factory_init name L M)) = nat L
   \<and> list_all (\<lambda>line. length (machines line) = nat M)
        (production_lines (Factory_init name L M))"
  by (simp add: Factory_init_def ProductionLine_init_def py_range_length list_all_iff)

text \<open>
  Claim C8, as stated: a zero or negative number of lines, machines or cycles makes
  construction fail with a configuration error. The constructors have no failing branch:
  with 0 lines the factory is built with no production lines, with -1 machines the line is
  built with no machines, and with 0 cycles the cycle range of the run is empty.
\<close>

theorem factory_counterexample:
  "Factory_init ''Smart Information Model Factory'' 0 2 =
     \<lparr>factory_name = ''Smart Information Model Factory'', production_lines = []\<rparr>
   \<and> ProductionLine_init ''Line_1'' (- 1) = \<lparr>line_id = ''Line_1'', machines = []\<rparr>
   \<and> py_range 1 (0 + 1) = []"
  by (simp add: Factory_init_def ProductionLine_init_def py_range_def)

text \<open>
  Claim C8, amended. With a zero or negative number of lines, machines per line or cycles
  nothing fails: the factory is built with \<open>max(L, 0)\<close> lines of \<open>max(M, 0)\<close> machines each,
  and the run returns normally with the factory as built, the empty log and no random draw
  consumed.
\<close>

theorem nonpositive_configuration:
  assumes "L \<le> 0 \<or> M \<le> 0 \<or> N \<le> 0"
  shows "length (production_lines (Factory_init name L M)) = nat L
       \<and> list_all (\<lambda>line. length (machines line) = nat M)
            (production_lines (Factory_init name L M))
       \<and> simulation hash L M N g =
           Inr (Factory_init ''Smart Information Model Factory'' L M, [], g)"
proof -
  let ?f = "Factory_init ''Smart Information Model Factory'' L M"
  have "run_cycles hash (py_range 1 (N + 1)) ?f [] g = Inr (?f, [], g)"
  proof (cases "N \<le> 0")
    case True
    then show ?thesis by (simp add: py_range_empty)
  next
    case False
    then have "list_all (\<lambda>line. machines line = []) (production_lines ?f)"
      using assms factory_no_lines [of L _ M] factory_no_machines [of M _ L] by auto
    then show ?thesis by (rule idle_cycles)
  qed
  then show ?thesis
    by (simp add: simulation_def factory_shape)
qed

theorem nonpositive_configuration_witness:
  "((0::int) \<le> 0 \<or> (2::int) \<le> 0 \<or> (101::int) \<le> 0)
   \<and> simulation (\<lambda>s. 0) 0 2 101 (\<lambda>k. 0) =
       Inr (\<lparr>factory_name = ''Smart Information Model Factory'', production_lines = []\<rparr>,
            [], \<lambda>k. 0)"
  using nonpositive_configuration
      [where L = 0 and M = 2 and N = 101 and hash = "\<lambda>s. 0" and g = "\<lambda>k. 0"]
  by (simp add: Factory_init_def py_range_def)

end
